theory Spec2Isabelle
  imports Complex_Main "HOL-Library.Multiset"
begin

section \<open>Hourly climatology of the Beer's-law notebook\<close>

text \<open>
  The notebook \<^verbatim>\<open>wrrPaper-fig01-BeersLaw.ipynb\<close> builds one module-level pandas
  dataframe \<^verbatim>\<open>df\<close> (a \<^verbatim>\<open>DatetimeIndex\<close> rounded to whole hours and one float
  column) and defines \<^verbatim>\<open>calcHourlyMean(data, time_start, time_end)\<close>, which slices
  \<^verbatim>\<open>df\<close> by two timestamps, groups the slice by hour of day and takes the mean of each
  group.

  Conventions of the embedding.
  \<^item> A \<^verbatim>\<open>pd.Timestamp\<close> is its integer value: nanoseconds since 1970-01-01 00:00
    (timezone-naive). Comparison of timestamps is comparison of these integers.
  \<^item> The column holds finite float64 readings; they are modelled as reals, so rounding
    and missing values (NaN) are outside the embedding.
  \<^item> A dataframe is the list of its rows in positional order, each row the pair of its
    index label and its value.
  \<^item> Exceptions are values: a result is \<open>error + 'a\<close> with \<open>Inl\<close> the exception.
  \<^item> The function is given twice: as a function of the series that \<^verbatim>\<open>df\<close> holds, and
    as a run of its statements on a heap of objects, which shows what a call writes to.
\<close>

subsection \<open>Data model\<close>

type_synonym timestamp = int

type_synonym dataframe = "(timestamp \<times> real) list"

text \<open>The frame returned by \<^verbatim>\<open>groupby(...).mean()\<close>: one row per group, the group key
  (an hour of day) as index label and the group's mean as value.\<close>

type_synonym hourly_frame = "(int \<times> real) list"

datatype error = ValueError | KeyError | AttributeError | IndexError

text \<open>A date string of the form \<^verbatim>\<open>'YYYY-MM-DD'\<close>, as the call sites of the notebook pass
  it (\<^verbatim>\<open>'2005-10-01'\<close>), given by its three numbers.\<close>

datatype date = Date (year: int) (month: int) (day: int)

text \<open>Module-level names of the notebook that the function can see.\<close>

record globals =
  df :: dataframe

subsection \<open>\<^verbatim>\<open>pd.Timestamp\<close> of a date string\<close>

definition is_leap :: "int \<Rightarrow> bool" where
  "is_leap y = (if y mod 400 = 0 then True else if y mod 100 = 0 then False else y mod 4 = 0)"

definition days_in_month :: "int \<Rightarrow> int \<Rightarrow> int" where
  "days_in_month y m =
     (if m = 2 then (if is_leap y then 29 else 28)
      else if m = 4 \<or> m = 6 \<or> m = 9 \<or> m = 11 then 30 else 31)"

text \<open>Days from 1970-01-01 to the given day of the proleptic Gregorian calendar.\<close>

definition days_from_civil :: "int \<Rightarrow> int \<Rightarrow> int \<Rightarrow> int" where
  "days_from_civil y m d =
     (let y' = (if m \<le> 2 then y - 1 else y);
          era = y' div 400;
          yoe = y' - era * 400;
          mp = (m + 9) mod 12;
          doy = (153 * mp + 2) div 5 + d - 1;
          doe = yoe * 365 + yoe div 4 - yoe div 100 + doy
      in era * 146097 + doe - 719468)"

definition ns_per_hour :: int where
  "ns_per_hour = 3600000000000"

definition ns_per_day :: int where
  "ns_per_day = 24 * ns_per_hour"

text \<open>\<^verbatim>\<open>pd.Timestamp('YYYY-MM-DD')\<close> is midnight at the start of that day. A month or
  day that does not exist raises \<^verbatim>\<open>ValueError\<close>; so does a day whose nanosecond count
  does not fit the signed 64-bit value (\<^verbatim>\<open>OutOfBoundsDatetime\<close>, a subclass of
  \<^verbatim>\<open>ValueError\<close>; the smallest 64-bit value is reserved for \<^verbatim>\<open>NaT\<close>).\<close>

definition Timestamp :: "date \<Rightarrow> error + timestamp" where
  "Timestamp s =
     (if 1 \<le> month s \<and> month s \<le> 12 \<and> 1 \<le> day s
         \<and> day s \<le> days_in_month (year s) (month s)
      then (let v = days_from_civil (year s) (month s) (day s) * ns_per_day
            in if - (2 ^ 63) < v \<and> v \<le> 2 ^ 63 - 1 then Inr v else Inl ValueError)
      else Inl ValueError)"

text \<open>The \<^verbatim>\<open>hour\<close> field of a timestamp (0 to 23).\<close>

definition hour :: "timestamp \<Rightarrow> int" where
  "hour t = (t div ns_per_hour) mod 24"

subsection \<open>Label slicing \<^verbatim>\<open>df[date_start:date_end]\<close>\<close>

definition index :: "('k \<times> 'v) list \<Rightarrow> 'k list" where
  "index frame = map fst frame"

datatype side = Left | Right

text \<open>\<^verbatim>\<open>searchsorted\<close> on an ascending array: the number of leading elements below the
  label (side left), or not above it (side right).\<close>

fun searchsorted :: "timestamp list \<Rightarrow> timestamp \<Rightarrow> side \<Rightarrow> nat" where
  "searchsorted xs v Left = length (takeWhile (\<lambda>x. x < v) xs)"
| "searchsorted xs v Right = length (takeWhile (\<lambda>x. x \<le> v) xs)"

text \<open>The positions of a label in the index, counted from \<open>i\<close>.\<close>

fun get_locs :: "timestamp list \<Rightarrow> timestamp \<Rightarrow> nat \<Rightarrow> nat list" where
  "get_locs [] v i = []"
| "get_locs (x # xs) v i = (if x = v then i # get_locs xs v (Suc i) else get_locs xs v (Suc i))"

fun other_side :: "side \<Rightarrow> side" where
  "other_side Left = Right"
| "other_side Right = Left"

text \<open>\<^verbatim>\<open>Index._searchsorted_monotonic\<close>: only a monotonic index can be searched for a
  label it does not hold.\<close>

definition searchsorted_monotonic :: "timestamp list \<Rightarrow> timestamp \<Rightarrow> side \<Rightarrow> error + nat" where
  "searchsorted_monotonic idx label sd =
     (if sorted idx then Inr (searchsorted idx label sd)
      else if sorted (rev idx) then Inr (length idx - searchsorted (rev idx) label (other_side sd))
      else Inl KeyError)"

text \<open>\<^verbatim>\<open>Index.get_slice_bound\<close>: a label found in the index bounds the slice at its first
  position (left) or after its last (right), provided its positions are consecutive; a
  label not found is searched for.\<close>

definition get_slice_bound :: "timestamp list \<Rightarrow> timestamp \<Rightarrow> side \<Rightarrow> error + nat" where
  "get_slice_bound idx label sd =
     (let locs = get_locs idx label 0
      in if locs = [] then searchsorted_monotonic idx label sd
         else if locs = [hd locs ..< Suc (last locs)]
         then Inr (case sd of Left \<Rightarrow> hd locs | Right \<Rightarrow> Suc (last locs))
         else Inl KeyError)"

text \<open>\<^verbatim>\<open>frame[a:b]\<close> with two timestamps: both bounds are looked up, then the rows
  between the two positions are taken.\<close>

definition getitem_slice :: "dataframe \<Rightarrow> timestamp \<Rightarrow> timestamp \<Rightarrow> error + dataframe" where
  "getitem_slice frame a b =
     (case get_slice_bound (index frame) a Left of
        Inl e \<Rightarrow> Inl e
      | Inr start_slice \<Rightarrow>
          (case get_slice_bound (index frame) b Right of
             Inl e \<Rightarrow> Inl e
           | Inr end_slice \<Rightarrow> Inr (drop start_slice (take end_slice frame))))"

subsection \<open>\<^verbatim>\<open>groupby(keys).mean()\<close>\<close>

definition mean :: "real list \<Rightarrow> real" where
  "mean vs = sum_list vs / real (length vs)"

text \<open>The rows are grouped by the key array, position by position; the groups come out
  in ascending key order, one row per key that occurs.\<close>

definition groupby_mean :: "dataframe \<Rightarrow> int list \<Rightarrow> hourly_frame" where
  "groupby_mean frame keys =
     map (\<lambda>k. (k, mean (map (\<lambda>p. snd (snd p)) (filter (\<lambda>p. fst p = k) (zip keys frame)))))
       (sort (remdups keys))"

subsection \<open>\<^verbatim>\<open>calcHourlyMean\<close>\<close>

text \<open>The loop \<^verbatim>\<open>for i in range(0, len(df.index))\<close> that appends to \<^verbatim>\<open>date_use\<close> every
  position whose label lies between the two dates.\<close>

fun date_use_loop :: "timestamp list \<Rightarrow> timestamp \<Rightarrow> timestamp \<Rightarrow> nat \<Rightarrow> nat list \<Rightarrow> nat list" where
  "date_use_loop [] date_start date_end i date_use = date_use"
| "date_use_loop (t # ts) date_start date_end i date_use =
     date_use_loop ts date_start date_end (Suc i)
       (if t \<ge> date_start \<and> t \<le> date_end then date_use @ [i] else date_use)"

text \<open>The function as written. Its first parameter \<^verbatim>\<open>data\<close> is never read: every
  reference in the body is to the module-level \<^verbatim>\<open>df\<close>, here the argument \<open>g\<close>.\<close>

definition calcHourlyMean :: "globals \<Rightarrow> dataframe \<Rightarrow> date \<Rightarrow> date \<Rightarrow> error + hourly_frame" where
  "calcHourlyMean g data time_start time_end =
     (case Timestamp time_start of
        Inl e \<Rightarrow> Inl e
      | Inr date_start \<Rightarrow>
          (case Timestamp time_end of
             Inl e \<Rightarrow> Inl e
           | Inr date_end \<Rightarrow>
               (let date_use = date_use_loop (index (df g)) date_start date_end 0 []
                in case getitem_slice (df g) date_start date_end of
                     Inl e \<Rightarrow> Inl e
                   | Inr selected \<Rightarrow>
                       (case getitem_slice (df g) date_start date_end of
                          Inl e \<Rightarrow> Inl e
                        | Inr selected' \<Rightarrow>
                            Inr (groupby_mean selected (map hour (index selected')))))))"

text \<open>The same function with the \<^verbatim>\<open>date_use\<close> loop deleted: conversion of the two
  dates, then slice, group and mean.\<close>

definition calcHourlyMean_no_loop :: "globals \<Rightarrow> dataframe \<Rightarrow> date \<Rightarrow> date \<Rightarrow> error + hourly_frame" where
  "calcHourlyMean_no_loop g data time_start time_end =
     (case Timestamp time_start of
        Inl e \<Rightarrow> Inl e
      | Inr date_start \<Rightarrow>
          (case Timestamp time_end of
             Inl e \<Rightarrow> Inl e
           | Inr date_end \<Rightarrow>
               (case getitem_slice (df g) date_start date_end of
                  Inl e \<Rightarrow> Inl e
                | Inr selected \<Rightarrow>
                    (case getitem_slice (df g) date_start date_end of
                       Inl e \<Rightarrow> Inl e
                     | Inr selected' \<Rightarrow>
                         Inr (groupby_mean selected (map hour (index selected')))))))"

subsection \<open>A call as a run on the module state\<close>

text \<open>To say what a call does to the objects of the notebook, the function is run on
  a heap. An object is a dataframe, a Python list of positions, or a frame of hourly
  means; a reference is a position in the heap; the module-level name \<^verbatim>\<open>df\<close> is bound
  to a reference. A step takes the state and returns a value or an exception together
  with the state it leaves behind.\<close>

datatype obj = FrameObj dataframe | ListObj "nat list" | HourlyObj hourly_frame

record module_state =
  heap :: "obj list"
  df_ref :: nat

type_synonym 'a step = "module_state \<Rightarrow> (error + 'a) \<times> module_state"

text \<open>Sequencing: an exception ends the run in the state reached.\<close>

definition then_step :: "'a step \<Rightarrow> ('a \<Rightarrow> 'b step) \<Rightarrow> 'b step" where
  "then_step m f s = (case m s of (Inl e, s') \<Rightarrow> (Inl e, s') | (Inr x, s') \<Rightarrow> f x s')"

text \<open>A computation on values, which touches no object.\<close>

definition pure_step :: "error + 'a \<Rightarrow> 'a step" where
  "pure_step r s = (r, s)"

text \<open>Creating an object: it gets the next free reference.\<close>

definition new_obj :: "obj \<Rightarrow> nat step" where
  "new_obj ob s = (Inr (length (heap s)), s\<lparr>heap := heap s @ [ob]\<rparr>)"

text \<open>Reading a reference as a dataframe (\<^verbatim>\<open>.index\<close>, slicing); anything else has no
  such attribute.\<close>

definition load_frame :: "nat \<Rightarrow> dataframe step" where
  "load_frame r s =
     (if r < length (heap s)
      then (case heap s ! r of
              FrameObj fr \<Rightarrow> (Inr fr, s)
            | ListObj xs \<Rightarrow> (Inl AttributeError, s)
            | HourlyObj h \<Rightarrow> (Inl AttributeError, s))
      else (Inl AttributeError, s))"

text \<open>Evaluating the name \<^verbatim>\<open>df\<close>: the object the module-level name is bound to at
  that moment.\<close>

definition load_df :: "dataframe step" where
  "load_df s = load_frame (df_ref s) s"

text \<open>\<^verbatim>\<open>xs.append(i)\<close> changes the list object in place: the one step of the function
  that writes to an existing object.\<close>

definition list_append :: "nat \<Rightarrow> nat \<Rightarrow> unit step" where
  "list_append r i s =
     (if r < length (heap s)
      then (case heap s ! r of
              ListObj xs \<Rightarrow> (Inr (), s\<lparr>heap := (heap s)[r := ListObj (xs @ [i])]\<rparr>)
            | FrameObj fr \<Rightarrow> (Inl AttributeError, s)
            | HourlyObj h \<Rightarrow> (Inl AttributeError, s))
      else (Inl AttributeError, s))"

text \<open>The loop over \<^verbatim>\<open>range(0, len(df.index))\<close>: each round reads \<^verbatim>\<open>df.index[i]\<close> from
  the heap and, if the label lies between the two dates, appends \<open>i\<close> to the list that
  \<^verbatim>\<open>date_use\<close> refers to.\<close>

fun date_use_steps :: "nat list \<Rightarrow> nat \<Rightarrow> timestamp \<Rightarrow> timestamp \<Rightarrow> unit step" where
  "date_use_steps [] date_use date_start date_end s = (Inr (), s)"
| "date_use_steps (i # rest) date_use date_start date_end s =
     (case load_df s of
        (Inl e, s') \<Rightarrow> (Inl e, s')
      | (Inr fr, s') \<Rightarrow>
          if i < length fr
          then (if index fr ! i \<ge> date_start \<and> index fr ! i \<le> date_end
                then (case list_append date_use i s' of
                        (Inl e, s'') \<Rightarrow> (Inl e, s'')
                      | (Inr u, s'') \<Rightarrow> date_use_steps rest date_use date_start date_end s'')
                else date_use_steps rest date_use date_start date_end s')
          else (Inl IndexError, s'))"

text \<open>The body of \<^verbatim>\<open>calcHourlyMean\<close>, statement by statement. The parameter \<^verbatim>\<open>data\<close> is
  a reference (at the call sites of the notebook, the one \<^verbatim>\<open>df\<close> is bound to). The two
  slices and the frame of means are new objects; the value returned is the reference of
  the last.\<close>

definition calcHourlyMean_run :: "nat \<Rightarrow> date \<Rightarrow> date \<Rightarrow> nat step" where
  "calcHourlyMean_run data time_start time_end =
     then_step (pure_step (Timestamp time_start)) (\<lambda>date_start.
     then_step (pure_step (Timestamp time_end)) (\<lambda>date_end.
     then_step (new_obj (ListObj [])) (\<lambda>date_use.
     then_step load_df (\<lambda>fr0.
     then_step (date_use_steps [0 ..< length (index fr0)] date_use date_start date_end) (\<lambda>u.
     then_step load_df (\<lambda>fr1.
     then_step (pure_step (getitem_slice fr1 date_start date_end)) (\<lambda>selected.
     then_step (new_obj (FrameObj selected)) (\<lambda>left.
     then_step load_df (\<lambda>fr2.
     then_step (pure_step (getitem_slice fr2 date_start date_end)) (\<lambda>selected'.
     then_step (new_obj (FrameObj selected')) (\<lambda>right.
     then_step (load_frame left) (\<lambda>rows.
     then_step (load_frame right) (\<lambda>rows'.
     new_obj (HourlyObj (groupby_mean rows (map hour (index rows')))))))))))))))))"

text \<open>What the caller finds under the returned reference.\<close>

definition result_value :: "(error + nat) \<times> module_state \<Rightarrow> error + hourly_frame" where
  "result_value out =
     (case fst out of
        Inl e \<Rightarrow> Inl e
      | Inr r \<Rightarrow>
          (if r < length (heap (snd out))
           then (case heap (snd out) ! r of
                   HourlyObj h \<Rightarrow> Inr h
                 | FrameObj fr \<Rightarrow> Inl AttributeError
                 | ListObj xs \<Rightarrow> Inl AttributeError)
           else Inl AttributeError))"

text \<open>The frame condition of a run, relative to the first \<open>n\<close> references: the name
  \<^verbatim>\<open>df\<close> is bound as before, no object has gone, and the objects under those references
  are what they were.\<close>

definition unchanged_below :: "nat \<Rightarrow> module_state \<Rightarrow> module_state \<Rightarrow> bool" where
  "unchanged_below n s s' =
     (n \<le> length (heap s) \<and> length (heap s) \<le> length (heap s')
      \<and> df_ref s' = df_ref s \<and> take n (heap s') = take n (heap s))"

subsection \<open>Notions of the specification\<close>

text \<open>The entries of a series that the specification calls included in an interval:
  those with \<open>start \<le> timestamp \<le> end\<close>, in series order.\<close>

definition included :: "dataframe \<Rightarrow> timestamp \<Rightarrow> timestamp \<Rightarrow> dataframe" where
  "included series start end = filter (\<lambda>r. start \<le> fst r \<and> fst r \<le> end) series"

text \<open>A timestamp written by date and hour of day, for the concrete scenarios.\<close>

definition at_hour :: "int \<Rightarrow> int \<Rightarrow> int \<Rightarrow> int \<Rightarrow> timestamp" where
  "at_hour y m d h = days_from_civil y m d * ns_per_day + h * ns_per_hour"

section \<open>Label slicing on an ascending index\<close>

lemma takeWhile_less_sorted:
  "sorted xs \<Longrightarrow> takeWhile (\<lambda>x. x < v) xs = filter (\<lambda>x. x < (v::int)) xs"
proof (induction xs)
  case Nil
  then show ?case by simp
next
  case (Cons x xs)
  show ?case
  proof (cases "x < v")
    case True
    with Cons show ?thesis by simp
  next
    case False
    with Cons.prems have "\<forall>y\<in>set xs. \<not> y < v" by auto
    then have "filter (\<lambda>x. x < v) xs = []" by (simp add: filter_empty_conv)
    with False show ?thesis by simp
  qed
qed

lemma takeWhile_le_sorted:
  "sorted xs \<Longrightarrow> takeWhile (\<lambda>x. x \<le> v) xs = filter (\<lambda>x. x \<le> (v::int)) xs"
proof (induction xs)
  case Nil
  then show ?case by simp
next
  case (Cons x xs)
  show ?case
  proof (cases "x \<le> v")
    case True
    with Cons show ?thesis by simp
  next
    case False
    with Cons.prems have "\<forall>y\<in>set xs. \<not> y \<le> v" by auto
    then have "filter (\<lambda>x. x \<le> v) xs = []" by (simp add: filter_empty_conv)
    with False show ?thesis by simp
  qed
qed

lemma get_locs_sorted:
  "sorted xs \<Longrightarrow> get_locs xs v i =
     [i + length (filter (\<lambda>x. x < v) xs) ..< i + length (filter (\<lambda>x. x \<le> v) xs)]"
proof (induction xs arbitrary: i)
  case Nil
  then show ?case by simp
next
  case (Cons x xs)
  then have IH: "get_locs xs v (Suc i) =
     [Suc i + length (filter (\<lambda>x. x < v) xs) ..< Suc i + length (filter (\<lambda>x. x \<le> v) xs)]"
    by simp
  consider "x < v" | "x = v" | "v < x" by linarith
  then show ?case
  proof cases
    case 1
    with IH show ?thesis by simp
  next
    case 2
    with Cons.prems have "\<forall>y\<in>set xs. \<not> y < v" by auto
    then have e: "filter (\<lambda>x. x < v) xs = []" by (simp add: filter_empty_conv)
    have "[i ..< Suc (i + length (filter (\<lambda>x. x \<le> v) xs))]
            = i # [Suc i ..< Suc (i + length (filter (\<lambda>x. x \<le> v) xs))]"
      by (rule upt_conv_Cons) simp
    with 2 IH e show ?thesis by (simp del: upt_Suc)
  next
    case 3
    with Cons.prems have a: "\<forall>y\<in>set xs. \<not> y < v" and b: "\<forall>y\<in>set xs. \<not> y \<le> v" by auto
    then have "filter (\<lambda>x. x < v) xs = []" "filter (\<lambda>x. x \<le> v) xs = []"
      by (simp_all add: filter_empty_conv)
    with 3 IH show ?thesis by simp
  qed
qed

lemma get_slice_bound_upt:
  assumes "get_locs idx v 0 = [n ..< m]" and "n < m"
  shows "get_slice_bound idx v sd = Inr (case sd of Left \<Rightarrow> n | Right \<Rightarrow> m)"
proof -
  from assms(2) have "[n ..< m] \<noteq> []" "hd [n ..< m] = n" "Suc (last [n ..< m]) = m"
    by simp_all
  then show ?thesis
    unfolding get_slice_bound_def assms(1) Let_def by (cases sd) simp_all
qed

lemma get_slice_bound_Left_sorted:
  assumes "sorted idx"
  shows "get_slice_bound idx v Left = Inr (length (filter (\<lambda>x. x < v) idx))"
proof -
  define n where "n = length (filter (\<lambda>x. x < v) idx)"
  define m where "m = length (filter (\<lambda>x. x \<le> v) idx)"
  have locs: "get_locs idx v 0 = [n ..< m]"
    using get_locs_sorted [OF assms, of v 0] by (simp add: n_def m_def)
  show ?thesis
  proof (cases "n < m")
    case True
    from get_slice_bound_upt [OF locs True, of Left] show ?thesis by (simp add: n_def)
  next
    case False
    then have "get_locs idx v 0 = []" using locs by simp
    then show ?thesis
      unfolding get_slice_bound_def Let_def
      using assms by (simp add: searchsorted_monotonic_def takeWhile_less_sorted)
  qed
qed

lemma get_slice_bound_Right_sorted:
  assumes "sorted idx"
  shows "get_slice_bound idx v Right = Inr (length (filter (\<lambda>x. x \<le> v) idx))"
proof -
  define n where "n = length (filter (\<lambda>x. x < v) idx)"
  define m where "m = length (filter (\<lambda>x. x \<le> v) idx)"
  have locs: "get_locs idx v 0 = [n ..< m]"
    using get_locs_sorted [OF assms, of v 0] by (simp add: n_def m_def)
  show ?thesis
  proof (cases "n < m")
    case True
    from get_slice_bound_upt [OF locs True, of Right] show ?thesis by (simp add: m_def)
  next
    case False
    then have "get_locs idx v 0 = []" using locs by simp
    then show ?thesis
      unfolding get_slice_bound_def Let_def
      using assms by (simp add: searchsorted_monotonic_def takeWhile_le_sorted)
  qed
qed

lemma take_count_le_sorted:
  "sorted (map fst fr) \<Longrightarrow>
     take (length (filter (\<lambda>r. fst r \<le> b) fr)) fr = filter (\<lambda>r. fst r \<le> (b::int)) fr"
proof (induction fr)
  case Nil
  then show ?case by simp
next
  case (Cons r rs)
  show ?case
  proof (cases "fst r \<le> b")
    case True
    with Cons show ?thesis by simp
  next
    case False
    with Cons.prems have "\<forall>y\<in>set rs. \<not> fst y \<le> b" by auto
    then have "filter (\<lambda>r. fst r \<le> b) rs = []"
      by (simp add: filter_empty_conv)
    with False show ?thesis by simp
  qed
qed

lemma drop_filter_le_sorted:
  assumes "sorted (map fst fr)"
  shows "drop (length (filter (\<lambda>r. fst r < a) fr)) (filter (\<lambda>r. fst r \<le> b) fr)
           = filter (\<lambda>r. (a::int) \<le> fst r \<and> fst r \<le> b) fr"
  using assms
proof (induction fr)
  case Nil
  then show ?case by simp
next
  case (Cons r rs)
  show ?case
  proof (cases "fst r < a")
    case True
    with Cons show ?thesis by (cases "fst r \<le> b") auto
  next
    case False
    with Cons.prems have "\<forall>y\<in>set rs. \<not> fst y < a" by auto
    then have "filter (\<lambda>r. fst r < a) rs = []"
      "filter (\<lambda>r. a \<le> fst r \<and> fst r \<le> b) rs = filter (\<lambda>r. fst r \<le> b) rs"
      by (auto simp add: filter_empty_conv intro!: filter_cong)
    with False show ?thesis by simp
  qed
qed

lemma getitem_slice_sorted:
  assumes "sorted (index frame)"
  shows "getitem_slice frame a b = Inr (filter (\<lambda>r. a \<le> fst r \<and> fst r \<le> b) frame)"
  using assms
  by (simp add: getitem_slice_def get_slice_bound_Left_sorted get_slice_bound_Right_sorted
      index_def o_def take_count_le_sorted drop_filter_le_sorted)


section \<open>The function on an ascending index\<close>

lemma getitem_slice_included:
  "sorted (index frame) \<Longrightarrow> getitem_slice frame a b = Inr (included frame a b)"
  by (simp add: getitem_slice_sorted included_def)

lemma group_rows_hour:
  "map (\<lambda>p. snd (snd p)) (filter (\<lambda>p. fst p = k) (zip (map (\<lambda>r. hour (fst r)) rows) rows))
     = map snd (filter (\<lambda>r. hour (fst r) = k) rows)"
  by (induction rows) simp_all

lemma groupby_mean_hour:
  "groupby_mean rows (map hour (index rows)) =
     map (\<lambda>k. (k, mean (map snd (filter (\<lambda>r. hour (fst r) = k) rows))))
       (sort (remdups (map (\<lambda>r. hour (fst r)) rows)))"
  by (simp add: groupby_mean_def index_def o_def group_rows_hour)

lemma calcHourlyMean_sorted:
  assumes "sorted (index (df g))" and "Timestamp time_start = Inr a" and "Timestamp time_end = Inr b"
  shows "calcHourlyMean g data time_start time_end =
           Inr (groupby_mean (included (df g) a b) (map hour (index (included (df g) a b))))"
  using assms by (simp add: calcHourlyMean_def Let_def getitem_slice_included)

lemma hour_range: "0 \<le> hour t \<and> hour t < 24"
  by (simp add: hour_def)

lemma keys_groupby_mean: "map fst (groupby_mean rows keys) = sort (remdups keys)"
  by (simp add: groupby_mean_def o_def)

lemma keys_groupby_hour:
  "map fst (groupby_mean rows (map hour (index rows)))
     = sorted_list_of_set ((\<lambda>r. hour (fst r)) ` set rows)"
  by (simp add: keys_groupby_mean index_def o_def sorted_list_of_set_sort_remdups [symmetric])

subsection \<open>Concrete timestamps\<close>

lemma Timestamp_2005_10_01: "Timestamp (Date 2005 10 1) = Inr 1128124800000000000"
  by (simp add: Timestamp_def days_in_month_def is_leap_def days_from_civil_def
      ns_per_day_def ns_per_hour_def Let_def)

lemma Timestamp_2006_09_30: "Timestamp (Date 2006 9 30) = Inr 1159574400000000000"
  by (simp add: Timestamp_def days_in_month_def is_leap_def days_from_civil_def
      ns_per_day_def ns_per_hour_def Let_def)

lemma at_hour_2005_10_01_00: "at_hour 2005 10 1 0 = 1128124800000000000"
  by (simp add: at_hour_def days_from_civil_def ns_per_day_def ns_per_hour_def Let_def)

lemma at_hour_2006_01_15_14: "at_hour 2006 1 15 14 = 1137333600000000000"
  by (simp add: at_hour_def days_from_civil_def ns_per_day_def ns_per_hour_def Let_def)

lemma at_hour_2006_01_15_15: "at_hour 2006 1 15 15 = 1137337200000000000"
  by (simp add: at_hour_def days_from_civil_def ns_per_day_def ns_per_hour_def Let_def)

lemma at_hour_2006_01_16_14: "at_hour 2006 1 16 14 = 1137420000000000000"
  by (simp add: at_hour_def days_from_civil_def ns_per_day_def ns_per_hour_def Let_def)

lemma at_hour_2006_09_30_00: "at_hour 2006 9 30 0 = 1159574400000000000"
  by (simp add: at_hour_def days_from_civil_def ns_per_day_def ns_per_hour_def Let_def)

lemma at_hour_2006_09_30_01: "at_hour 2006 9 30 1 = 1159578000000000000"
  by (simp add: at_hour_def days_from_civil_def ns_per_day_def ns_per_hour_def Let_def)

lemma at_hour_2007_01_15_14: "at_hour 2007 1 15 14 = 1168869600000000000"
  by (simp add: at_hour_def days_from_civil_def ns_per_day_def ns_per_hour_def Let_def)

lemmas at_hour_values =
  at_hour_2005_10_01_00 at_hour_2006_01_15_14 at_hour_2006_01_15_15 at_hour_2006_01_16_14
  at_hour_2006_09_30_00 at_hour_2006_09_30_01 at_hour_2007_01_15_14

section \<open>The loop that fills \<^verbatim>\<open>date_use\<close>\<close>

text \<open>What the loop collects, on any index: the positions of the labels between the
  two dates, in order.\<close>

lemma date_use_loop_positions:
  "date_use_loop idx a b i acc
     = acc @ map fst (filter (\<lambda>p. a \<le> snd p \<and> snd p \<le> b) (zip [i ..< i + length idx] idx))"
proof (induction idx arbitrary: i acc)
  case Nil
  then show ?case by simp
next
  case (Cons t ts)
  have u: "[i ..< i + Suc (length ts)] = i # [Suc i ..< Suc i + length ts]"
    using upt_conv_Cons [of i "i + Suc (length ts)"] by (simp del: upt_Suc)
  have "date_use_loop (t # ts) a b i acc
      = (if a \<le> t \<and> t \<le> b then acc @ [i] else acc)
        @ map fst (filter (\<lambda>p. a \<le> snd p \<and> snd p \<le> b) (zip [Suc i ..< Suc i + length ts] ts))"
    by (simp add: Cons.IH)
  also have "\<dots> = acc @ map fst (filter (\<lambda>p. a \<le> snd p \<and> snd p \<le> b)
                        (zip (i # [Suc i ..< Suc i + length ts]) (t # ts)))"
    by simp
  finally show ?case
    using u by simp
qed

lemma rows_at_positions:
  "map ((!) xs) (map fst (filter (\<lambda>p. Q (snd p)) (zip [0 ..< length xs] (map f xs))))
     = filter (\<lambda>x. Q (f x)) xs"
proof (induction xs rule: rev_induct)
  case Nil
  then show ?case by simp
next
  case (snoc x xs)
  let ?ps = "map fst (filter (\<lambda>p. Q (snd p)) (zip [0 ..< length xs] (map f xs)))"
  have "set ?ps \<subseteq> {..< length xs}"
    by (auto dest: set_zip_leftD)
  then have "map ((!) (xs @ [x])) ?ps = map ((!) xs) ?ps"
    by (intro map_cong) (auto simp add: nth_append)
  with snoc show ?case by simp
qed

text \<open>So the rows at the positions in \<^verbatim>\<open>date_use\<close> are the included entries, whatever the
  order of the frame.\<close>

lemma rows_at_date_use:
  "map ((!) fr) (date_use_loop (index fr) a b 0 []) = included fr a b"
  using rows_at_positions [of fr "\<lambda>t. a \<le> t \<and> t \<le> b" fst]
  by (simp add: date_use_loop_positions index_def included_def)

section \<open>Runs on the module state\<close>

lemma unchanged_below_refl: "n \<le> length (heap s) \<Longrightarrow> unchanged_below n s s"
  by (simp add: unchanged_below_def)

lemma unchanged_below_trans:
  "unchanged_below n s s' \<Longrightarrow> unchanged_below n s' s'' \<Longrightarrow> unchanged_below n s s''"
  by (simp add: unchanged_below_def)

lemma then_step_unchanged:
  assumes "unchanged_below n s (snd (m s))"
    and "\<And>x s'. m s = (Inr x, s') \<Longrightarrow> n \<le> length (heap s') \<Longrightarrow> unchanged_below n s' (snd (f x s'))"
  shows "unchanged_below n s (snd (then_step m f s))"
proof (cases "m s")
  case (Pair r s')
  show ?thesis
  proof (cases r)
    case (Inl e)
    with Pair assms(1) show ?thesis by (simp add: then_step_def)
  next
    case (Inr x)
    from assms(1) Pair have a: "unchanged_below n s s'" by simp
    then have "n \<le> length (heap s')" by (simp add: unchanged_below_def)
    with assms(2) Pair Inr have "unchanged_below n s' (snd (f x s'))" by simp
    with a have "unchanged_below n s (snd (f x s'))" by (rule unchanged_below_trans)
    with Pair Inr show ?thesis by (simp add: then_step_def)
  qed
qed

lemma pure_step_unchanged: "n \<le> length (heap s) \<Longrightarrow> unchanged_below n s (snd (pure_step r s))"
  by (simp add: pure_step_def unchanged_below_def)

lemma load_frame_state: "snd (load_frame r s) = s"
  by (simp add: load_frame_def split: obj.splits)

lemma load_frame_unchanged: "n \<le> length (heap s) \<Longrightarrow> unchanged_below n s (snd (load_frame r s))"
  by (simp add: load_frame_state unchanged_below_def)

lemma load_df_unchanged: "n \<le> length (heap s) \<Longrightarrow> unchanged_below n s (snd (load_df s))"
  by (simp add: load_df_def load_frame_unchanged)

lemma new_obj_unchanged: "n \<le> length (heap s) \<Longrightarrow> unchanged_below n s (snd (new_obj ob s))"
  by (simp add: new_obj_def unchanged_below_def)

lemma new_obj_ref: "new_obj ob s = (Inr x, s') \<Longrightarrow> x = length (heap s)"
  by (auto simp add: new_obj_def)

text \<open>Appending writes to the list's own reference only: what lies below it stays.\<close>

lemma list_append_unchanged:
  "n \<le> length (heap s) \<Longrightarrow> n \<le> r \<Longrightarrow> unchanged_below n s (snd (list_append r i s))"
  by (simp add: list_append_def unchanged_below_def split: obj.splits)

lemma date_use_steps_unchanged:
  "n \<le> length (heap s) \<Longrightarrow> n \<le> date_use \<Longrightarrow>
     unchanged_below n s (snd (date_use_steps rest date_use a b s))"
proof (induction rest arbitrary: s)
  case Nil
  then show ?case by (simp add: unchanged_below_def)
next
  case (Cons i rest)
  obtain r s' where l: "load_df s = (r, s')" by (cases "load_df s")
  then have s': "s' = s" using load_frame_state [of "df_ref s" s] by (simp add: load_df_def)
  show ?case
  proof (cases r)
    case (Inl e)
    with l s' Cons.prems show ?thesis by (simp add: unchanged_below_def)
  next
    case (Inr fr)
    show ?thesis
    proof (cases "i < length fr \<and> index fr ! i \<ge> a \<and> index fr ! i \<le> b")
      case False
      with l s' Inr Cons show ?thesis by (auto simp add: unchanged_below_def)
    next
      case True
      obtain q s'' where ap: "list_append date_use i s = (q, s'')" by (cases "list_append date_use i s")
      from list_append_unchanged [OF Cons.prems, of i] ap
      have u: "unchanged_below n s s''" by simp
      show ?thesis
      proof (cases q)
        case (Inl e)
        with True l s' Inr ap u show ?thesis by simp
      next
        case (Inr v)
        from u have "n \<le> length (heap s'')" by (simp add: unchanged_below_def)
        then have "unchanged_below n s'' (snd (date_use_steps rest date_use a b s''))"
          using Cons.prems(2) by (rule Cons.IH)
        with u have "unchanged_below n s (snd (date_use_steps rest date_use a b s''))"
          by (rule unchanged_below_trans)
        with True l s' \<open>r = Inr fr\<close> ap Inr show ?thesis by simp
      qed
    qed
  qed
qed

lemma calcHourlyMean_run_unchanged:
  "unchanged_below (length (heap s)) s (snd (calcHourlyMean_run data time_start time_end s))"
  unfolding calcHourlyMean_run_def
  by (intro then_step_unchanged pure_step_unchanged load_df_unchanged load_frame_unchanged
      new_obj_unchanged date_use_steps_unchanged)
    (auto dest: new_obj_ref simp add: unchanged_below_def)

text \<open>The loop runs through when \<^verbatim>\<open>df\<close> is a frame and \<^verbatim>\<open>date_use\<close> is another object, a
  list: it changes that list and nothing else.\<close>

lemma date_use_steps_runs:
  assumes "df_ref s < length (heap s)" and "heap s ! df_ref s = FrameObj fr"
    and "d < length (heap s)" and "heap s ! d = ListObj xs" and "d \<noteq> df_ref s"
    and "list_all (\<lambda>i. i < length fr) rest"
  shows "\<exists>ys. date_use_steps rest d a b s = (Inr (), s\<lparr>heap := (heap s)[d := ListObj ys]\<rparr>)"
  using assms
proof (induction rest arbitrary: s xs)
  case Nil
  have "s\<lparr>heap := (heap s)[d := ListObj xs]\<rparr> = s"
    using Nil.prems(4) by (metis list_update_id module_state.surjective module_state.update_convs(1))
  then show ?case by (auto intro: exI [of _ xs])
next
  case (Cons i rest)
  have l: "load_df s = (Inr fr, s)"
    using Cons.prems(1,2) by (simp add: load_df_def load_frame_def)
  have i: "i < length fr" and r: "list_all (\<lambda>i. i < length fr) rest"
    using Cons.prems(6) by simp_all
  show ?case
  proof (cases "index fr ! i \<ge> a \<and> index fr ! i \<le> b")
    case False
    from Cons.IH [OF Cons.prems(1-5) r]
    obtain ys where "date_use_steps rest d a b s = (Inr (), s\<lparr>heap := (heap s)[d := ListObj ys]\<rparr>)"
      by blast
    with False l i show ?thesis by auto
  next
    case True
    let ?s = "s\<lparr>heap := (heap s)[d := ListObj (xs @ [i])]\<rparr>"
    have ap: "list_append d i s = (Inr (), ?s)"
      using Cons.prems(3,4) by (simp add: list_append_def)
    have "\<exists>ys. date_use_steps rest d a b ?s = (Inr (), ?s\<lparr>heap := (heap ?s)[d := ListObj ys]\<rparr>)"
      using Cons.prems r by (intro Cons.IH [where xs = "xs @ [i]"]) simp_all
    then obtain ys where "date_use_steps rest d a b ?s = (Inr (), s\<lparr>heap := (heap s)[d := ListObj ys]\<rparr>)"
      by auto
    with True l i ap show ?thesis by auto
  qed
qed

lemma list_all_upt: "list_all (\<lambda>i. i < n) [0 ..< n]"
  by (simp add: list_all_iff)

text \<open>The whole run, when \<^verbatim>\<open>df\<close> is a frame and both dates convert: either the slice
  raises, or four objects are added and the last holds the grouped means.\<close>

lemma calcHourlyMean_run_value:
  assumes "df_ref s < length (heap s)" and "heap s ! df_ref s = FrameObj fr"
  shows "result_value (calcHourlyMean_run data time_start time_end s)
           = calcHourlyMean \<lparr>df = fr\<rparr> [] time_start time_end"
proof (cases "Timestamp time_start")
  case (Inl e)
  then show ?thesis
    by (simp add: calcHourlyMean_run_def calcHourlyMean_def then_step_def pure_step_def result_value_def)
next
  case a: (Inr a)
  show ?thesis
  proof (cases "Timestamp time_end")
    case (Inl e)
    with a show ?thesis
      by (simp add: calcHourlyMean_run_def calcHourlyMean_def then_step_def pure_step_def result_value_def)
  next
    case b: (Inr b)
    let ?n = "length (heap s)"
    let ?s1 = "s\<lparr>heap := heap s @ [ListObj []]\<rparr>"
    have n1: "new_obj (ListObj []) s = (Inr ?n, ?s1)" by (simp add: new_obj_def)
    have l1: "load_df ?s1 = (Inr fr, ?s1)"
      using assms by (simp add: load_df_def load_frame_def nth_append)
    have "\<exists>ys. date_use_steps [0 ..< length fr] ?n a b ?s1
             = (Inr (), ?s1\<lparr>heap := (heap ?s1)[?n := ListObj ys]\<rparr>)"
      using assms by (intro date_use_steps_runs [where xs = "[]" and fr = fr])
        (simp_all add: nth_append list_all_upt)
    then obtain ys where lp: "date_use_steps [0 ..< length fr] ?n a b ?s1
             = (Inr (), s\<lparr>heap := heap s @ [ListObj ys]\<rparr>)"
      by auto
    let ?s2 = "s\<lparr>heap := heap s @ [ListObj ys]\<rparr>"
    have l2: "load_df ?s2 = (Inr fr, ?s2)"
      using assms by (simp add: load_df_def load_frame_def nth_append)
    show ?thesis
    proof (cases "getitem_slice fr a b")
      case (Inl e)
      with a b n1 l1 lp l2 show ?thesis
        by (simp add: calcHourlyMean_run_def calcHourlyMean_def then_step_def pure_step_def
            result_value_def index_def Let_def)
    next
      case (Inr sel)
      let ?s3 = "s\<lparr>heap := heap s @ [ListObj ys, FrameObj sel]\<rparr>"
      let ?s4 = "s\<lparr>heap := heap s @ [ListObj ys, FrameObj sel, FrameObj sel]\<rparr>"
      have n3: "new_obj (FrameObj sel) ?s2 = (Inr (Suc ?n), ?s3)" by (simp add: new_obj_def)
      have l3: "load_df ?s3 = (Inr fr, ?s3)"
        using assms by (simp add: load_df_def load_frame_def nth_append)
      have n4: "new_obj (FrameObj sel) ?s3 = (Inr (Suc (Suc ?n)), ?s4)" by (simp add: new_obj_def)
      have l4: "load_frame (Suc ?n) ?s4 = (Inr sel, ?s4)"
        by (simp add: load_frame_def nth_append)
      have l5: "load_frame (Suc (Suc ?n)) ?s4 = (Inr sel, ?s4)"
        by (simp add: load_frame_def nth_append)
      from a b Inr n1 l1 lp l2 n3 l3 n4 l4 l5 show ?thesis
        by (simp add: calcHourlyMean_run_def calcHourlyMean_def then_step_def pure_step_def
            result_value_def index_def Let_def new_obj_def nth_append)
    qed
  qed
qed

section \<open>Claims\<close>

text \<open>C1. On a series with ascending timestamps, the rows that the label slice hands to
  the grouping are exactly the entries with \<open>start \<le> timestamp \<le> end\<close>, where start
  and end are the timestamps of the two dates; the result is the grouped mean of those
  rows. For a valid interval an entry stamped exactly start, or exactly end, is among
  them.\<close>

theorem calcHourlyMean_selects_closed_interval:
  assumes "sorted (index (df g))"
    and "Timestamp time_start = Inr a" and "Timestamp time_end = Inr b"
  shows "getitem_slice (df g) a b = Inr (included (df g) a b)
       \<and> calcHourlyMean g data time_start time_end
           = Inr (groupby_mean (included (df g) a b) (map hour (index (included (df g) a b))))
       \<and> (\<forall>t v. (t, v) \<in> set (included (df g) a b) \<longleftrightarrow> (t, v) \<in> set (df g) \<and> a \<le> t \<and> t \<le> b)
       \<and> (\<forall>v. a \<le> b \<and> (a, v) \<in> set (df g) \<longrightarrow> (a, v) \<in> set (included (df g) a b))
       \<and> (\<forall>v. a \<le> b \<and> (b, v) \<in> set (df g) \<longrightarrow> (b, v) \<in> set (included (df g) a b))"
proof -
  have "getitem_slice (df g) a b = Inr (included (df g) a b)"
    using assms(1) by (rule getitem_slice_included)
  moreover have "calcHourlyMean g data time_start time_end
      = Inr (groupby_mean (included (df g) a b) (map hour (index (included (df g) a b))))"
    using assms by (rule calcHourlyMean_sorted)
  moreover have "\<forall>t v. (t, v) \<in> set (included (df g) a b) \<longleftrightarrow> (t, v) \<in> set (df g) \<and> a \<le> t \<and> t \<le> b"
    by (auto simp add: included_def)
  moreover have "\<forall>v. a \<le> b \<and> (a, v) \<in> set (df g) \<longrightarrow> (a, v) \<in> set (included (df g) a b)"
    by (simp add: included_def)
  moreover have "\<forall>v. a \<le> b \<and> (b, v) \<in> set (df g) \<longrightarrow> (b, v) \<in> set (included (df g) a b)"
    by (simp add: included_def)
  ultimately show ?thesis by blast
qed

theorem calcHourlyMean_selects_closed_interval_witness:
  "sorted (index (df \<lparr>df = [(at_hour 2005 10 1 0, 1), (at_hour 2006 1 15 14, 10),
                            (at_hour 2006 9 30 0, 3), (at_hour 2006 9 30 1, 4)]\<rparr>))
   \<and> Timestamp (Date 2005 10 1) = Inr (at_hour 2005 10 1 0)
   \<and> Timestamp (Date 2006 9 30) = Inr (at_hour 2006 9 30 0)
   \<and> getitem_slice [(at_hour 2005 10 1 0, 1), (at_hour 2006 1 15 14, 10),
                     (at_hour 2006 9 30 0, 3), (at_hour 2006 9 30 1, 4)]
        (at_hour 2005 10 1 0) (at_hour 2006 9 30 0)
       = Inr [(at_hour 2005 10 1 0, 1), (at_hour 2006 1 15 14, 10), (at_hour 2006 9 30 0, 3)]
   \<and> calcHourlyMean \<lparr>df = [(at_hour 2005 10 1 0, 1), (at_hour 2006 1 15 14, 10),
                            (at_hour 2006 9 30 0, 3), (at_hour 2006 9 30 1, 4)]\<rparr>
        [] (Date 2005 10 1) (Date 2006 9 30) = Inr [(0, 2), (14, 10)]"
proof -
  let ?g = "\<lparr>df = [(at_hour 2005 10 1 0, 1), (at_hour 2006 1 15 14, 10),
                   (at_hour 2006 9 30 0, 3), (at_hour 2006 9 30 1, 4)]\<rparr>"
  have h1: "sorted (index (df ?g))"
    by (simp add: index_def at_hour_values)
  have h2: "Timestamp (Date 2005 10 1) = Inr (at_hour 2005 10 1 0)"
    by (simp add: Timestamp_2005_10_01 at_hour_values)
  have h3: "Timestamp (Date 2006 9 30) = Inr (at_hour 2006 9 30 0)"
    by (simp add: Timestamp_2006_09_30 at_hour_values)
  have inc: "included (df ?g) (at_hour 2005 10 1 0) (at_hour 2006 9 30 0)
      = [(at_hour 2005 10 1 0, 1), (at_hour 2006 1 15 14, 10), (at_hour 2006 9 30 0, 3)]"
    by (simp add: included_def at_hour_values)
  have grp: "groupby_mean [(at_hour 2005 10 1 0, 1), (at_hour 2006 1 15 14, 10), (at_hour 2006 9 30 0, 3)]
      (map hour (index [(at_hour 2005 10 1 0, 1::real), (at_hour 2006 1 15 14, 10), (at_hour 2006 9 30 0, 3)]))
      = [(0, 2), (14, 10)]"
    by (simp add: groupby_mean_def index_def at_hour_values hour_def ns_per_hour_def mean_def)
  from calcHourlyMean_selects_closed_interval [OF h1 h2 h3, of "[]"] h1 h2 h3
  show ?thesis
    unfolding inc grp by simp
qed


text \<open>C2. The result does not always have 24 buckets: an empty series gives a result
  with no bucket at all.\<close>

theorem empty_series_has_no_buckets:
  "calcHourlyMean \<lparr>df = []\<rparr> [] (Date 2005 10 1) (Date 2006 9 30) = Inr []
   \<and> length (projr (calcHourlyMean \<lparr>df = []\<rparr> [] (Date 2005 10 1) (Date 2006 9 30))) \<noteq> 24"
  by (simp add: calcHourlyMean_def Timestamp_2005_10_01 Timestamp_2006_09_30 index_def
      getitem_slice_def get_slice_bound_def searchsorted_monotonic_def groupby_mean_def Let_def)

text \<open>C2, as the code has it. On a series with ascending timestamps and a valid
  interval the call returns a frame with one bucket for each hour of day that has an
  included entry and none for the other hours: at most 24 buckets, their keys within
  0 to 23 and strictly ascending. For an empty series the frame has no bucket.\<close>

theorem calcHourlyMean_buckets_only_present_hours:
  assumes "sorted (index (df g))"
    and "Timestamp time_start = Inr a" and "Timestamp time_end = Inr b" and "a \<le> b"
  shows "\<exists>r. calcHourlyMean g data time_start time_end = Inr r
       \<and> set (map fst r) = (\<lambda>r. hour (fst r)) ` set (included (df g) a b)
       \<and> length r = card ((\<lambda>r. hour (fst r)) ` set (included (df g) a b))
       \<and> length r \<le> 24
       \<and> set (map fst r) \<subseteq> {0..23}
       \<and> sorted (map fst r) \<and> distinct (map fst r)
       \<and> (df g = [] \<longrightarrow> r = [])"
proof -
  let ?inc = "included (df g) a b"
  let ?r = "groupby_mean ?inc (map hour (index ?inc))"
  let ?H = "(\<lambda>r. hour (fst r)) ` set ?inc"
  have res: "calcHourlyMean g data time_start time_end = Inr ?r"
    using assms(1-3) by (rule calcHourlyMean_sorted)
  have keys: "map fst ?r = sorted_list_of_set ?H"
    by (rule keys_groupby_hour)
  have fin: "finite ?H" by simp
  have len: "length ?r = card ?H"
  proof -
    have "length ?r = length (map fst ?r)" by simp
    also have "\<dots> = card ?H" unfolding keys by simp
    finally show ?thesis .
  qed
  have sub: "?H \<subseteq> {0..23}"
    using hour_range by fastforce
  have "card ?H \<le> card {0..23::int}"
    by (rule card_mono) (use sub in simp_all)
  then have le: "length ?r \<le> 24" using len by simp
  have "set (map fst ?r) = set (sorted_list_of_set ?H)"
    by (simp only: keys)
  then have st: "set (map fst ?r) = ?H" by simp
  have s: "set (map fst ?r) \<subseteq> {0..23}"
    unfolding keys using sub by simp
  have so: "sorted (map fst ?r)" "distinct (map fst ?r)"
    unfolding keys by simp_all
  have e: "df g = [] \<longrightarrow> ?r = []"
    by (simp add: included_def groupby_mean_def index_def)
  from res st len le s so e show ?thesis by blast
qed

theorem calcHourlyMean_buckets_only_present_hours_witness:
  "sorted (index (df \<lparr>df = [(at_hour 2006 1 15 14, 10), (at_hour 2006 1 15 15, 20),
                            (at_hour 2007 1 15 14, 30)]\<rparr>))
   \<and> Timestamp (Date 2005 10 1) = Inr 1128124800000000000
   \<and> Timestamp (Date 2006 9 30) = Inr 1159574400000000000
   \<and> (1128124800000000000::int) \<le> 1159574400000000000
   \<and> (\<exists>r. calcHourlyMean \<lparr>df = [(at_hour 2006 1 15 14, 10), (at_hour 2006 1 15 15, 20),
                                 (at_hour 2007 1 15 14, 30)]\<rparr> [] (Date 2005 10 1) (Date 2006 9 30) = Inr r
          \<and> length r \<le> 24 \<and> sorted (map fst r) \<and> distinct (map fst r))"
proof -
  let ?g = "\<lparr>df = [(at_hour 2006 1 15 14, 10), (at_hour 2006 1 15 15, 20),
                   (at_hour 2007 1 15 14, 30)]\<rparr>"
  have h1: "sorted (index (df ?g))"
    by (simp add: index_def at_hour_values)
  have h4: "(1128124800000000000::int) \<le> 1159574400000000000" by simp
  from calcHourlyMean_buckets_only_present_hours
    [OF h1 Timestamp_2005_10_01 Timestamp_2006_09_30 h4, of "[]"]
  have "\<exists>r. calcHourlyMean ?g [] (Date 2005 10 1) (Date 2006 9 30) = Inr r
          \<and> length r \<le> 24 \<and> sorted (map fst r) \<and> distinct (map fst r)"
    by blast
  with h1 h4 Timestamp_2005_10_01 Timestamp_2006_09_30 show ?thesis by blast
qed

text \<open>C3. The parameter \<^verbatim>\<open>data\<close> has no influence: two calls that differ only in it
  return the same, and what they return is determined by the module-level series and
  the two dates.\<close>

theorem calcHourlyMean_ignores_data:
  "calcHourlyMean g d1 time_start time_end = calcHourlyMean g d2 time_start time_end
   \<and> calcHourlyMean g d1 time_start time_end = calcHourlyMean \<lparr>df = df g\<rparr> d2 time_start time_end"
  by (simp add: calcHourlyMean_def Let_def cong: sum.case_cong)

theorem calcHourlyMean_ignores_data_witness:
  "calcHourlyMean \<lparr>df = [(at_hour 2006 1 15 14, 10)]\<rparr> [] (Date 2005 10 1) (Date 2006 9 30)
     = calcHourlyMean \<lparr>df = [(at_hour 2006 1 15 14, 10)]\<rparr> [(at_hour 2006 1 15 15, 20)]
         (Date 2005 10 1) (Date 2006 9 30)"
  using calcHourlyMean_ignores_data
    [of "\<lparr>df = [(at_hour 2006 1 15 14, 10)]\<rparr>" "[]" "Date 2005 10 1" "Date 2006 9 30"
        "[(at_hour 2006 1 15 15, 20)]"]
  by blast

text \<open>C4. The scenario of the specification: of the three entries the two of January
  2006 lie in the interval from 2005-10-01 to 2006-09-30; the result has bucket 14 with
  10.0 and bucket 15 with 20.0 and no other bucket, and it is the result of the series
  without the entry of 2007.\<close>

theorem calcHourlyMean_scenario_2006:
  "calcHourlyMean \<lparr>df = [(at_hour 2006 1 15 14, 10), (at_hour 2006 1 15 15, 20),
                          (at_hour 2007 1 15 14, 30)]\<rparr> data (Date 2005 10 1) (Date 2006 9 30)
     = Inr [(14, 10), (15, 20)]
   \<and> calcHourlyMean \<lparr>df = [(at_hour 2006 1 15 14, 10), (at_hour 2006 1 15 15, 20)]\<rparr>
       data (Date 2005 10 1) (Date 2006 9 30)
     = Inr [(14, 10), (15, 20)]"
  by (simp add: calcHourlyMean_def Timestamp_2005_10_01 Timestamp_2006_09_30
      index_def at_hour_values getitem_slice_def get_slice_bound_def searchsorted_monotonic_def
      groupby_mean_def hour_def ns_per_hour_def mean_def Let_def)

text \<open>C6. The list \<^verbatim>\<open>date_use\<close> is built and never read: the function without the loop
  returns what the function returns, on every input, errors included.\<close>

theorem calcHourlyMean_loop_is_dead:
  "calcHourlyMean_no_loop g data time_start time_end = calcHourlyMean g data time_start time_end"
  by (simp add: calcHourlyMean_no_loop_def calcHourlyMean_def Let_def cong: sum.case_cong)

theorem calcHourlyMean_loop_is_dead_witness:
  "calcHourlyMean_no_loop \<lparr>df = [(at_hour 2006 1 15 14, 10), (at_hour 2006 1 15 15, 20),
                          (at_hour 2007 1 15 14, 30)]\<rparr> [] (Date 2005 10 1) (Date 2006 9 30)
     = calcHourlyMean \<lparr>df = [(at_hour 2006 1 15 14, 10), (at_hour 2006 1 15 15, 20),
                          (at_hour 2007 1 15 14, 30)]\<rparr> [] (Date 2005 10 1) (Date 2006 9 30)
   \<and> date_use_loop (index [(at_hour 2006 1 15 14, 10::real), (at_hour 2006 1 15 15, 20),
                          (at_hour 2007 1 15 14, 30)]) 1128124800000000000 1159574400000000000 0 []
     = [0, 1]"
  using calcHourlyMean_loop_is_dead
    [of "\<lparr>df = [(at_hour 2006 1 15 14, 10), (at_hour 2006 1 15 15, 20),
                          (at_hour 2007 1 15 14, 30)]\<rparr>" "[]" "Date 2005 10 1" "Date 2006 9 30"]
  by (simp add: index_def at_hour_values)



text \<open>C8. Run on a state in which \<^verbatim>\<open>df\<close> is bound to a dataframe, a call leaves every
  object that existed before it as it was, the series among them with every timestamp
  and value, and leaves \<^verbatim>\<open>df\<close> bound to it, whether it returns or raises; the only
  object it writes to is the list it created itself. What a call returns is therefore
  what the function yields on that series, whatever calls ran before: two calls
  return the same in either order.\<close>

theorem calcHourlyMean_run_keeps_series:
  assumes "df_ref s < length (heap s)" and "heap s ! df_ref s = FrameObj fr"
  shows "take (length (heap s)) (heap (snd (calcHourlyMean_run data time_start time_end s))) = heap s
       \<and> df_ref (snd (calcHourlyMean_run data time_start time_end s)) = df_ref s
       \<and> heap (snd (calcHourlyMean_run data time_start time_end s)) ! df_ref s = FrameObj fr
       \<and> result_value (calcHourlyMean_run data time_start time_end s)
           = calcHourlyMean \<lparr>df = fr\<rparr> [] time_start time_end
       \<and> result_value (calcHourlyMean_run data2 start2 end2
                         (snd (calcHourlyMean_run data1 start1 end1 s)))
           = result_value (calcHourlyMean_run data2 start2 end2 s)
       \<and> result_value (calcHourlyMean_run data1 start1 end1
                         (snd (calcHourlyMean_run data2 start2 end2 s)))
           = result_value (calcHourlyMean_run data1 start1 end1 s)"
proof -
  have keep: "take (length (heap s)) (heap (snd (calcHourlyMean_run d t1 t2 s))) = heap s
      \<and> df_ref (snd (calcHourlyMean_run d t1 t2 s)) = df_ref s
      \<and> df_ref s < length (heap (snd (calcHourlyMean_run d t1 t2 s)))
      \<and> heap (snd (calcHourlyMean_run d t1 t2 s)) ! df_ref s = FrameObj fr" for d t1 t2
  proof -
    let ?s' = "snd (calcHourlyMean_run d t1 t2 s)"
    have u: "unchanged_below (length (heap s)) s ?s'"
      by (rule calcHourlyMean_run_unchanged)
    then have t: "take (length (heap s)) (heap ?s') = heap s"
      and r: "df_ref ?s' = df_ref s" and len: "length (heap s) \<le> length (heap ?s')"
      by (simp_all add: unchanged_below_def)
    have "heap ?s' ! df_ref s = take (length (heap s)) (heap ?s') ! df_ref s"
      using assms(1) by simp
    then have "heap ?s' ! df_ref s = FrameObj fr"
      using t assms(2) by simp
    with t r len assms(1) show ?thesis by simp
  qed
  have after: "result_value (calcHourlyMean_run d' t1' t2' (snd (calcHourlyMean_run d t1 t2 s)))
      = result_value (calcHourlyMean_run d' t1' t2' s)" for d t1 t2 d' t1' t2'
  proof -
    let ?s' = "snd (calcHourlyMean_run d t1 t2 s)"
    from keep [of d t1 t2] have "df_ref ?s' < length (heap ?s')" "heap ?s' ! df_ref ?s' = FrameObj fr"
      by simp_all
    then have "result_value (calcHourlyMean_run d' t1' t2' ?s') = calcHourlyMean \<lparr>df = fr\<rparr> [] t1' t2'"
      by (rule calcHourlyMean_run_value)
    also have "\<dots> = result_value (calcHourlyMean_run d' t1' t2' s)"
      using assms by (rule calcHourlyMean_run_value [symmetric])
    finally show ?thesis .
  qed
  from keep [of data time_start time_end] calcHourlyMean_run_value [OF assms, of data time_start time_end]
    after [of data2 start2 end2 data1 start1 end1] after [of data1 start1 end1 data2 start2 end2]
  show ?thesis by simp
qed

theorem calcHourlyMean_run_keeps_series_witness:
  "df_ref \<lparr>heap = [FrameObj [(at_hour 2006 1 15 14, 10), (at_hour 2006 1 15 15, 20),
                              (at_hour 2007 1 15 14, 30)]], df_ref = 0\<rparr>
     < length (heap \<lparr>heap = [FrameObj [(at_hour 2006 1 15 14, 10), (at_hour 2006 1 15 15, 20),
                              (at_hour 2007 1 15 14, 30)]], df_ref = 0\<rparr>)
   \<and> calcHourlyMean_run 0 (Date 2005 10 1) (Date 2006 9 30)
        \<lparr>heap = [FrameObj [(at_hour 2006 1 15 14, 10), (at_hour 2006 1 15 15, 20),
                            (at_hour 2007 1 15 14, 30)]], df_ref = 0\<rparr>
     = (Inr 4,
        \<lparr>heap = [FrameObj [(at_hour 2006 1 15 14, 10), (at_hour 2006 1 15 15, 20),
                            (at_hour 2007 1 15 14, 30)],
                  ListObj [0, 1],
                  FrameObj [(at_hour 2006 1 15 14, 10), (at_hour 2006 1 15 15, 20)],
                  FrameObj [(at_hour 2006 1 15 14, 10), (at_hour 2006 1 15 15, 20)],
                  HourlyObj [(14, 10), (15, 20)]], df_ref = 0\<rparr>)
   \<and> result_value (calcHourlyMean_run 0 (Date 2006 9 30) (Date 2005 10 1)
        (snd (calcHourlyMean_run 0 (Date 2005 10 1) (Date 2006 9 30)
          \<lparr>heap = [FrameObj [(at_hour 2006 1 15 14, 10), (at_hour 2006 1 15 15, 20),
                              (at_hour 2007 1 15 14, 30)]], df_ref = 0\<rparr>)))
     = calcHourlyMean \<lparr>df = [(at_hour 2006 1 15 14, 10), (at_hour 2006 1 15 15, 20),
                              (at_hour 2007 1 15 14, 30)]\<rparr> [] (Date 2006 9 30) (Date 2005 10 1)"
proof -
  let ?fr = "[(at_hour 2006 1 15 14, 10::real), (at_hour 2006 1 15 15, 20), (at_hour 2007 1 15 14, 30)]"
  let ?s = "\<lparr>heap = [FrameObj ?fr], df_ref = 0\<rparr>"
  have h1: "df_ref ?s < length (heap ?s)" by simp
  have h2: "heap ?s ! df_ref ?s = FrameObj ?fr" by simp
  have run: "calcHourlyMean_run 0 (Date 2005 10 1) (Date 2006 9 30) ?s
     = (Inr 4, \<lparr>heap = [FrameObj ?fr, ListObj [0, 1],
                  FrameObj [(at_hour 2006 1 15 14, 10), (at_hour 2006 1 15 15, 20)],
                  FrameObj [(at_hour 2006 1 15 14, 10), (at_hour 2006 1 15 15, 20)],
                  HourlyObj [(14, 10), (15, 20)]], df_ref = 0\<rparr>)"
    by (simp add: calcHourlyMean_run_def then_step_def pure_step_def new_obj_def load_df_def
        load_frame_def list_append_def Timestamp_2005_10_01 Timestamp_2006_09_30
        index_def at_hour_values getitem_slice_def get_slice_bound_def searchsorted_monotonic_def
        groupby_mean_def hour_def ns_per_hour_def mean_def Let_def upt_rec [of 0])
  from calcHourlyMean_run_keeps_series [OF h1 h2, where data = 0 and time_start = "Date 2006 9 30"
      and time_end = "Date 2005 10 1" and ?data2.0 = 0 and ?start2.0 = "Date 2006 9 30"
      and ?end2.0 = "Date 2005 10 1" and ?data1.0 = 0 and ?start1.0 = "Date 2005 10 1"
      and ?end1.0 = "Date 2006 9 30"]
  have "result_value (calcHourlyMean_run 0 (Date 2006 9 30) (Date 2005 10 1)
          (snd (calcHourlyMean_run 0 (Date 2005 10 1) (Date 2006 9 30) ?s)))
        = calcHourlyMean \<lparr>df = ?fr\<rparr> [] (Date 2006 9 30) (Date 2005 10 1)"
    by simp
  with h1 run show ?thesis by simp
qed

text \<open>C9. The two dates are not compared with each other. On a series with ascending
  timestamps an interval whose start lies after its end selects no entry, and the call
  returns the frame without buckets; it raises nothing.\<close>

theorem calcHourlyMean_reversed_interval:
  assumes "sorted (index (df g))"
    and "Timestamp time_start = Inr a" and "Timestamp time_end = Inr b" and "b < a"
  shows "included (df g) a b = [] \<and> calcHourlyMean g data time_start time_end = Inr []"
proof -
  have "included (df g) a b = []"
    using assms(4) by (auto simp add: included_def filter_empty_conv)
  then show ?thesis
    by (simp add: calcHourlyMean_sorted [OF assms(1-3)] groupby_mean_def index_def)
qed

theorem calcHourlyMean_reversed_interval_witness:
  "sorted (index (df \<lparr>df = [(at_hour 2006 1 15 14, 10), (at_hour 2006 1 15 15, 20),
                            (at_hour 2007 1 15 14, 30)]\<rparr>))
   \<and> Timestamp (Date 2006 9 30) = Inr 1159574400000000000
   \<and> Timestamp (Date 2005 10 1) = Inr 1128124800000000000
   \<and> (1128124800000000000::int) < 1159574400000000000
   \<and> calcHourlyMean \<lparr>df = [(at_hour 2006 1 15 14, 10), (at_hour 2006 1 15 15, 20),
                            (at_hour 2007 1 15 14, 30)]\<rparr> [] (Date 2006 9 30) (Date 2005 10 1)
       = Inr []"
proof -
  let ?g = "\<lparr>df = [(at_hour 2006 1 15 14, 10), (at_hour 2006 1 15 15, 20),
                   (at_hour 2007 1 15 14, 30)]\<rparr>"
  have h1: "sorted (index (df ?g))"
    by (simp add: index_def at_hour_values)
  have h4: "(1128124800000000000::int) < 1159574400000000000" by simp
  from calcHourlyMean_reversed_interval
    [OF h1 Timestamp_2006_09_30 Timestamp_2005_10_01 h4, of "[]"]
    h1 h4 Timestamp_2006_09_30 Timestamp_2005_10_01
  show ?thesis by blast
qed

text \<open>C10. On a series with ascending timestamps the keys of the result are the
  distinct hours of day of the included entries, in ascending order; an hour without an
  included entry has no row, and when nothing is included the call returns the frame
  without rows instead of raising.\<close>

theorem calcHourlyMean_keys_are_present_hours:
  assumes "sorted (index (df g))"
    and "Timestamp time_start = Inr a" and "Timestamp time_end = Inr b"
  shows "\<exists>r. calcHourlyMean g data time_start time_end = Inr r
       \<and> map fst r = sorted_list_of_set ((\<lambda>r. hour (fst r)) ` set (included (df g) a b))
       \<and> set (map fst r) = (\<lambda>r. hour (fst r)) ` set (included (df g) a b)
       \<and> (\<forall>h. h \<notin> (\<lambda>r. hour (fst r)) ` set (included (df g) a b) \<longrightarrow> map_of r h = None)
       \<and> (included (df g) a b = [] \<longrightarrow> r = [])"
proof -
  let ?inc = "included (df g) a b"
  let ?r = "groupby_mean ?inc (map hour (index ?inc))"
  let ?H = "(\<lambda>r. hour (fst r)) ` set ?inc"
  have res: "calcHourlyMean g data time_start time_end = Inr ?r"
    using assms by (rule calcHourlyMean_sorted)
  have keys: "map fst ?r = sorted_list_of_set ?H"
    by (rule keys_groupby_hour)
  have "set (map fst ?r) = set (sorted_list_of_set ?H)"
    by (simp only: keys)
  then have st: "set (map fst ?r) = ?H" by simp
  have absent: "\<forall>h. h \<notin> ?H \<longrightarrow> map_of ?r h = None"
  proof (intro allI impI)
    fix h assume "h \<notin> ?H"
    then have "h \<notin> fst ` set ?r" using st by simp
    then show "map_of ?r h = None" by (simp add: map_of_eq_None_iff)
  qed
  have e: "?inc = [] \<longrightarrow> ?r = []"
    by (simp add: groupby_mean_def index_def)
  from res keys st absent e show ?thesis by blast
qed

theorem calcHourlyMean_keys_are_present_hours_witness:
  "sorted (index (df \<lparr>df = [(at_hour 2006 1 15 15, 20), (at_hour 2006 1 16 14, 10),
                            (at_hour 2007 1 15 14, 30)]\<rparr>))
   \<and> Timestamp (Date 2005 10 1) = Inr 1128124800000000000
   \<and> Timestamp (Date 2006 9 30) = Inr 1159574400000000000
   \<and> (\<exists>r. calcHourlyMean \<lparr>df = [(at_hour 2006 1 15 15, 20), (at_hour 2006 1 16 14, 10),
                                 (at_hour 2007 1 15 14, 30)]\<rparr> [] (Date 2005 10 1) (Date 2006 9 30) = Inr r
          \<and> map fst r = [14, 15])"
proof -
  let ?g = "\<lparr>df = [(at_hour 2006 1 15 15, 20::real), (at_hour 2006 1 16 14, 10),
                   (at_hour 2007 1 15 14, 30)]\<rparr>"
  have h1: "sorted (index (df ?g))"
    by (simp add: index_def at_hour_values)
  have hs: "(\<lambda>r. hour (fst r)) ` set (included (df ?g) 1128124800000000000 1159574400000000000)
              = set [15, 14]"
    by (simp add: included_def at_hour_values hour_def ns_per_hour_def)
  have sl: "sorted_list_of_set (set [15, 14::int]) = [14, 15]"
    by (simp add: sorted_list_of_set_sort_remdups)
  from calcHourlyMean_keys_are_present_hours
    [OF h1 Timestamp_2005_10_01 Timestamp_2006_09_30, of "[]"]
  obtain r where r: "calcHourlyMean ?g [] (Date 2005 10 1) (Date 2006 9 30) = Inr r"
    and k: "map fst r = sorted_list_of_set
              ((\<lambda>r. hour (fst r)) ` set (included (df ?g) 1128124800000000000 1159574400000000000))"
    by (elim exE conjE)
  from k have "map fst r = [14, 15]"
    unfolding hs sl .
  with r have "\<exists>r. calcHourlyMean ?g [] (Date 2005 10 1) (Date 2006 9 30) = Inr r \<and> map fst r = [14, 15]"
    by simp
  with h1 Timestamp_2005_10_01 Timestamp_2006_09_30 show ?thesis by simp
qed


end
